theory Spec2Isabelle
  imports Main
begin

section \<open>Arrays, the plotting backend and Python's errors\<close>

text \<open>
  The two functions of \<^verbatim>\<open>Ch03_CNN/Ex03A/plotting_cnn.py\<close> read a numpy array and issue
  calls to \<^verbatim>\<open>matplotlib.pyplot\<close>. An array is its shape tuple and its elements in
  row-major order; the element type is left open.
\<close>

record 'a ndarray =
  shape :: "nat list"
  data :: "'a list"

text \<open>
  The calls the source issues to the plotting library, with the arguments it passes.
  A \<^verbatim>\<open>range\<close> is the list of its elements, an Axes object is a handle (a number),
  \<^verbatim>\<open>linewidth\<close> is the integer the source writes.
\<close>

datatype 'a call =
    Import_pyplot
  | Imshow "'a ndarray" string string "nat list"
  | Grid string nat
  | Xticks "nat list"
  | Yticks "nat list"
  | Tight_layout
  | Show
  | Subplots nat nat
  | Ax_imshow nat "'a ndarray" string string "nat list"
  | Ax_grid nat string nat
  | Ax_set_title nat string
  | Ax_set_xticks nat "nat list"
  | Ax_set_yticks nat "nat list"

text \<open>
  What \<^verbatim>\<open>plt.subplots(1, n)\<close> hands back as \<^verbatim>\<open>axs\<close>: one Axes object, or an array
  of Axes objects.
\<close>

datatype axes_ret = Single_Axes nat | Axes_Array "nat list"

text \<open>
  The plotting library is a parameter of the model: \<open>raises h c\<close> is the exception
  the library raises when call \<open>c\<close> is issued after the calls \<open>h\<close> (None when it
  returns), and \<open>subplots_ret n\<close> is the value of \<^verbatim>\<open>axs\<close> after
  \<^verbatim>\<open>plt.subplots(1, n)\<close>. The library is handed the contents of an array, so the only
  writes to the store are those of the functions themselves.
\<close>

record ('a, 'e) backend =
  raises :: "'a call list \<Rightarrow> 'a call \<Rightarrow> 'e option"
  subplots_ret :: "nat \<Rightarrow> axes_ret"

text \<open>
  The exceptions: \<open>IndexError\<close> of a tuple index out of range, \<open>TypeError\<close> of
  iterating over an object that is not iterable, and whatever the library raises.
\<close>

datatype 'e error = IndexError | TypeError | Backend 'e

text \<open>
  The state: the caller's arrays, by address, and the calls issued to the library so
  far (a call that raises is recorded too).
\<close>

record 'a world =
  arrays :: "nat \<Rightarrow> 'a ndarray"
  calls :: "'a call list"

type_synonym ('a, 'e, 'r) py = "'a world \<Rightarrow> ('e error + 'r) \<times> 'a world"

definition return_py :: "'r \<Rightarrow> ('a, 'e, 'r) py" where
  "return_py x w = (Inr x, w)"

definition raise_py :: "'e error \<Rightarrow> ('a, 'e, 'r) py" where
  "raise_py e w = (Inl e, w)"

text \<open>Sequencing: an exception of the first statement skips the rest.\<close>

definition bind_py :: "('a, 'e, 'r) py \<Rightarrow> ('r \<Rightarrow> ('a, 'e, 'q) py) \<Rightarrow> ('a, 'e, 'q) py" where
  "bind_py m f w = (case m w of (Inl e, w') \<Rightarrow> (Inl e, w') | (Inr x, w') \<Rightarrow> f x w')"

definition backend_call :: "('a, 'e) backend \<Rightarrow> 'a call \<Rightarrow> ('a, 'e, unit) py" where
  "backend_call B c w =
     (case raises B (calls w) c of
        Some e \<Rightarrow> (Inl (Backend e), w\<lparr>calls := calls w @ [c]\<rparr>)
      | None \<Rightarrow> (Inr (), w\<lparr>calls := calls w @ [c]\<rparr>))"

text \<open>The array a parameter refers to.\<close>

definition load :: "nat \<Rightarrow> ('a, 'e, 'a ndarray) py" where
  "load p w = (Inr (arrays w p), w)"

text \<open>\<^verbatim>\<open>a.shape[k]\<close> for a literal \<open>k \<ge> 0\<close>: IndexError when the tuple is too short.\<close>

definition shape_at :: "'a ndarray \<Rightarrow> nat \<Rightarrow> ('a, 'e, nat) py" where
  "shape_at a k = (if k < length (shape a) then return_py (shape a ! k) else raise_py IndexError)"

text \<open>\<^verbatim>\<open>range(lo, hi)\<close> on non-negative integers.\<close>

definition py_range :: "nat \<Rightarrow> nat \<Rightarrow> nat list" where
  "py_range lo hi = [lo..<hi]"

section \<open>plot_image\<close>

text \<open>
  \<^verbatim>\<open>
  def plot_image(image):
      import matplotlib.pyplot as plt
      plt.imshow(image, cmap="gray", aspect="equal",
                 extent=[0, image.shape[1], 0, image.shape[0]])
      plt.grid(color="red", linewidth=1)
      plt.xticks(range(0, image.shape[1] + 1))
      plt.yticks(range(0, image.shape[0] + 1))
      plt.tight_layout()
      plt.show()
  \<close>
  Arguments are evaluated left to right before the call, so \<^verbatim>\<open>image.shape[1]\<close> is read
  before \<^verbatim>\<open>image.shape[0]\<close> and both before \<^verbatim>\<open>imshow\<close> runs. The parameter
  \<^verbatim>\<open>image\<close> is the address \<open>img\<close> of the caller's array.
\<close>

definition plot_image :: "('a, 'e) backend \<Rightarrow> nat \<Rightarrow> ('a, 'e, unit) py" where
  "plot_image B img =
     bind_py (backend_call B Import_pyplot) (\<lambda>_.
     bind_py (load img) (\<lambda>a.
     bind_py (shape_at a 1) (\<lambda>c.
     bind_py (shape_at a 0) (\<lambda>r.
     bind_py (backend_call B (Imshow a ''gray'' ''equal'' [0, c, 0, r])) (\<lambda>_.
     bind_py (backend_call B (Grid ''red'' 1)) (\<lambda>_.
     bind_py (load img) (\<lambda>a.
     bind_py (shape_at a 1) (\<lambda>c.
     bind_py (backend_call B (Xticks (py_range 0 (c + 1)))) (\<lambda>_.
     bind_py (load img) (\<lambda>a.
     bind_py (shape_at a 0) (\<lambda>r.
     bind_py (backend_call B (Yticks (py_range 0 (r + 1)))) (\<lambda>_.
     bind_py (backend_call B Tight_layout) (\<lambda>_.
     backend_call B Show)))))))))))))"

section \<open>plot_channels\<close>

text \<open>
  Iterating over an array yields its sub-arrays along the first axis, each of the
  remaining shape; a 0-dimensional array is not iterable.
\<close>

definition subarray :: "'a ndarray \<Rightarrow> nat \<Rightarrow> 'a ndarray" where
  "subarray a k =
     (let m = prod_list (tl (shape a))
      in \<lparr>shape = tl (shape a), data = take m (drop (k * m) (data a))\<rparr>)"

definition iter_ndarray :: "'a ndarray \<Rightarrow> ('a, 'e, 'a ndarray list) py" where
  "iter_ndarray a =
     (case shape a of
        [] \<Rightarrow> raise_py TypeError
      | n # _ \<Rightarrow> return_py (map (subarray a) [0..<n]))"

text \<open>Iterating over \<^verbatim>\<open>axs\<close>: an Axes object is not iterable, an array of them is.\<close>

definition iter_axes :: "axes_ret \<Rightarrow> ('a, 'e, nat list) py" where
  "iter_axes axs =
     (case axs of
        Single_Axes ax \<Rightarrow> raise_py TypeError
      | Axes_Array axl \<Rightarrow> return_py axl)"

text \<open>\<^verbatim>\<open>zip\<close> of three iterables stops with the shortest.\<close>

definition py_zip3 :: "'x list \<Rightarrow> 'y list \<Rightarrow> 'z list \<Rightarrow> ('x \<times> 'y \<times> 'z) list" where
  "py_zip3 xs ys zs = zip xs (zip ys zs)"

text \<open>The decimal digits of a non-negative integer, as \<^verbatim>\<open>f"{i}"\<close> prints it.\<close>

function py_str :: "nat \<Rightarrow> string" where
  "py_str n =
     (if n < 10 then [''0123456789'' ! n]
      else py_str (n div 10) @ [''0123456789'' ! (n mod 10)])"
  by pat_completeness auto
termination
  by (relation "measure id") auto

declare py_str.simps [simp del]

text \<open>\<^verbatim>\<open>fig, axs = plt.subplots(1, n)\<close>; \<^verbatim>\<open>fig\<close> is not used.\<close>

definition subplots :: "('a, 'e) backend \<Rightarrow> nat \<Rightarrow> nat \<Rightarrow> ('a, 'e, axes_ret) py" where
  "subplots B nrows ncols =
     bind_py (backend_call B (Subplots nrows ncols)) (\<lambda>_. return_py (subplots_ret B ncols))"

text \<open>
  \<^verbatim>\<open>
  def plot_channels(channels):
      import matplotlib.pyplot as plt
      fig, axs = plt.subplots(1, channels.shape[0])
      for channel, ax, i in zip(channels, axs, range(channels.shape[0])):
          ax.imshow(channel, cmap="gray", aspect="equal",
                    extent=[0, channel.shape[1], 0, channel.shape[0]])
          ax.grid(color="red", linewidth=1)
          ax.set_title(f"Channel {i}")
          ax.set_xticks(range(0, channel.shape[1] + 1))
          ax.set_yticks(range(0, channel.shape[0] + 1))
      plt.tight_layout()
      plt.show()
  \<close>
  The body of the loop, for one triple of the \<^verbatim>\<open>zip\<close>:
\<close>

definition loop_body :: "('a, 'e) backend \<Rightarrow> 'a ndarray \<times> nat \<times> nat \<Rightarrow> ('a, 'e, unit) py" where
  "loop_body B = (\<lambda>(channel, ax, i).
     bind_py (shape_at channel 1) (\<lambda>c.
     bind_py (shape_at channel 0) (\<lambda>r.
     bind_py (backend_call B (Ax_imshow ax channel ''gray'' ''equal'' [0, c, 0, r])) (\<lambda>_.
     bind_py (backend_call B (Ax_grid ax ''red'' 1)) (\<lambda>_.
     bind_py (backend_call B (Ax_set_title ax (''Channel '' @ py_str i))) (\<lambda>_.
     bind_py (shape_at channel 1) (\<lambda>c.
     bind_py (backend_call B (Ax_set_xticks ax (py_range 0 (c + 1)))) (\<lambda>_.
     bind_py (shape_at channel 0) (\<lambda>r.
     backend_call B (Ax_set_yticks ax (py_range 0 (r + 1))))))))))))"

fun for_each :: "('x \<Rightarrow> ('a, 'e, unit) py) \<Rightarrow> 'x list \<Rightarrow> ('a, 'e, unit) py" where
  "for_each f [] = return_py ()"
| "for_each f (x # xs) = bind_py (f x) (\<lambda>_. for_each f xs)"

text \<open>
  The arguments of \<^verbatim>\<open>zip\<close> are evaluated first (the second read of
  \<^verbatim>\<open>channels.shape[0]\<close> among them), then \<^verbatim>\<open>zip\<close> asks each for its iterator, in
  order. The parameter \<^verbatim>\<open>channels\<close> is the address of the caller's array.
\<close>

definition plot_channels :: "('a, 'e) backend \<Rightarrow> nat \<Rightarrow> ('a, 'e, unit) py" where
  "plot_channels B channels =
     bind_py (backend_call B Import_pyplot) (\<lambda>_.
     bind_py (load channels) (\<lambda>a.
     bind_py (shape_at a 0) (\<lambda>n.
     bind_py (subplots B 1 n) (\<lambda>axs.
     bind_py (load channels) (\<lambda>a.
     bind_py (shape_at a 0) (\<lambda>m.
     bind_py (iter_ndarray a) (\<lambda>chs.
     bind_py (iter_axes axs) (\<lambda>axl.
     bind_py (for_each (loop_body B) (py_zip3 chs axl (py_range 0 m))) (\<lambda>_.
     bind_py (backend_call B Tight_layout) (\<lambda>_.
     backend_call B Show))))))))))"

section \<open>The library as matplotlib documents it\<close>

text \<open>
  Modelled from the spec: matplotlib itself is no part of the repository. Section 4.2 of the
  specification says that for a single-subplot row the library returns an object that is
  not an iterable collection; that is the \<^verbatim>\<open>squeeze=True\<close> default of
  \<^verbatim>\<open>subplots\<close>, which returns the one Axes object itself for a 1 by 1 grid and a
  one-dimensional array of Axes for a 1 by n grid with n > 1. matplotlib's GridSpec rejects
  a grid with no rows or no columns with a ValueError. Every other call is taken to return:
  a display is there and the image data are acceptable.
\<close>

datatype mpl_error = ValueError string

definition pyplot :: "('a, mpl_error) backend" where
  "pyplot =
     \<lparr>raises = (\<lambda>h c. case c of
          Subplots nrows ncols \<Rightarrow>
            (if nrows = 0 then Some (ValueError ''Number of rows must be a positive integer, not 0'')
             else if ncols = 0 then Some (ValueError ''Number of columns must be a positive integer, not 0'')
             else None)
        | _ \<Rightarrow> None),
      subplots_ret = (\<lambda>n. if n = 1 then Single_Axes 0 else Axes_Array [0..<n])\<rparr>"

section \<open>Observing a run\<close>

text \<open>The calls a run from \<open>w\<close> to \<open>w'\<close> has added to the record.\<close>

definition issued :: "'a world \<Rightarrow> 'a world \<Rightarrow> 'a call list" where
  "issued w w' = drop (length (calls w)) (calls w')"

text \<open>
  What a call configures: the aspect and extent of an image display, the tick positions
  of an axis, the title of a subplot.
\<close>

fun extent_of :: "'a call \<Rightarrow> (string \<times> nat list) option" where
  "extent_of (Imshow a cm asp ext) = Some (asp, ext)"
| "extent_of (Ax_imshow ax a cm asp ext) = Some (asp, ext)"
| "extent_of _ = None"

fun xticks_of :: "'a call \<Rightarrow> nat list option" where
  "xticks_of (Xticks t) = Some t"
| "xticks_of (Ax_set_xticks ax t) = Some t"
| "xticks_of _ = None"

fun yticks_of :: "'a call \<Rightarrow> nat list option" where
  "yticks_of (Yticks t) = Some t"
| "yticks_of (Ax_set_yticks ax t) = Some t"
| "yticks_of _ = None"

fun title_of :: "'a call \<Rightarrow> (nat \<times> string) option" where
  "title_of (Ax_set_title ax t) = Some (ax, t)"
| "title_of _ = None"

text \<open>The same, for the calls on a subplot, with the Axes object that receives them.\<close>

fun subplot_extent_of :: "'a call \<Rightarrow> (nat \<times> string \<times> nat list) option" where
  "subplot_extent_of (Ax_imshow ax a cm asp ext) = Some (ax, asp, ext)"
| "subplot_extent_of _ = None"

fun subplot_xticks_of :: "'a call \<Rightarrow> (nat \<times> nat list) option" where
  "subplot_xticks_of (Ax_set_xticks ax t) = Some (ax, t)"
| "subplot_xticks_of _ = None"

fun subplot_yticks_of :: "'a call \<Rightarrow> (nat \<times> nat list) option" where
  "subplot_yticks_of (Ax_set_yticks ax t) = Some (ax, t)"
| "subplot_yticks_of _ = None"

text \<open>A call with the pixel values of its array blanked; the shape stays.\<close>

fun forget_pixels :: "'a call \<Rightarrow> 'a call" where
  "forget_pixels (Imshow a cm asp ext) = Imshow (a\<lparr>data := []\<rparr>) cm asp ext"
| "forget_pixels (Ax_imshow ax a cm asp ext) = Ax_imshow ax (a\<lparr>data := []\<rparr>) cm asp ext"
| "forget_pixels c = c"

text \<open>The library returns from each of the calls \<open>cs\<close>, issued in this order after \<open>h\<close>.\<close>

fun accepted :: "('a, 'e) backend \<Rightarrow> 'a call list \<Rightarrow> 'a call list \<Rightarrow> bool" where
  "accepted B h [] = True"
| "accepted B h (c # cs) = (raises B h c = None \<and> accepted B (h @ [c]) cs)"

text \<open>
  A run that issued \<open>cs\<close> after \<open>h\<close> and ended with \<open>res\<close> is in order when the
  library returned from every call but, if \<open>res\<close> is an exception of the library, the
  last one, which raised just that exception.
\<close>

definition trace_ok ::
  "('a, 'e) backend \<Rightarrow> 'a call list \<Rightarrow> 'a call list \<Rightarrow> 'e error + 'r \<Rightarrow> bool" where
  "trace_ok B h cs res =
     (case res of
        Inl (Backend e) \<Rightarrow>
          cs \<noteq> [] \<and> accepted B h (butlast cs) \<and> raises B (h @ butlast cs) (last cs) = Some e
      | _ \<Rightarrow> accepted B h cs)"

text \<open>A program is orderly when it only adds calls to the record, and in order.\<close>

definition orderly :: "('a, 'e) backend \<Rightarrow> ('a, 'e, 'r) py \<Rightarrow> bool" where
  "orderly B m =
     (\<forall>w. \<exists>cs. snd (m w) = w\<lparr>calls := calls w @ cs\<rparr> \<and> trace_ok B (calls w) cs (fst (m w)))"

text \<open>The calls of one round of the loop of \<^verbatim>\<open>plot_channels\<close> that runs to its end.\<close>

definition round_calls :: "'a ndarray \<times> nat \<times> nat \<Rightarrow> 'a call list" where
  "round_calls = (\<lambda>(channel, ax, i).
     [Ax_imshow ax channel ''gray'' ''equal'' [0, shape channel ! 1, 0, shape channel ! 0],
      Ax_grid ax ''red'' 1,
      Ax_set_title ax (''Channel '' @ py_str i),
      Ax_set_xticks ax [0..<shape channel ! 1 + 1],
      Ax_set_yticks ax [0..<shape channel ! 0 + 1]])"

text \<open>The same for channel \<open>i\<close> of a stack \<open>a\<close> of shape (N, R, C), drawn into subplot \<open>i\<close>.\<close>

definition subplot_calls :: "'a ndarray \<Rightarrow> nat \<Rightarrow> nat \<Rightarrow> nat \<Rightarrow> 'a call list" where
  "subplot_calls a R C i =
     [Ax_imshow i (subarray a i) ''gray'' ''equal'' [0, C, 0, R],
      Ax_grid i ''red'' 1,
      Ax_set_title i (''Channel '' @ py_str i),
      Ax_set_xticks i [0..<C + 1],
      Ax_set_yticks i [0..<R + 1]]"

subsection \<open>What a call does, read off the array and the library\<close>

text \<open>
  The outcome of a call, written without the program: \<^verbatim>\<open>plot_image\<close> and
  \<^verbatim>\<open>plot_channels\<close> are compared with it. The calls a function issues when the library
  raises nothing, and the exception of Python's own that ends the call after them
  (IndexError of \<^verbatim>\<open>shape[1]\<close> on an array of fewer than two dimensions, or of
  \<^verbatim>\<open>shape[0]\<close> on one of none; TypeError of iterating over a single Axes object):
\<close>

definition image_calls :: "'a ndarray \<Rightarrow> 'a call list" where
  "image_calls a =
     (if length (shape a) < 2 then [Import_pyplot]
      else [Import_pyplot,
            Imshow a ''gray'' ''equal'' [0, shape a ! 1, 0, shape a ! 0],
            Grid ''red'' 1,
            Xticks [0..<shape a ! 1 + 1],
            Yticks [0..<shape a ! 0 + 1],
            Tight_layout, Show])"

definition image_error :: "'a ndarray \<Rightarrow> 'e error option" where
  "image_error a = (if length (shape a) < 2 then Some IndexError else None)"

definition channels_calls :: "('a, 'e) backend \<Rightarrow> 'a ndarray \<Rightarrow> 'a call list" where
  "channels_calls B a =
     (case shape a of
        [] \<Rightarrow> [Import_pyplot]
      | N # rest \<Rightarrow>
          [Import_pyplot, Subplots 1 N] @
          (case subplots_ret B N of
             Single_Axes ax \<Rightarrow> []
           | Axes_Array axl \<Rightarrow>
               (let xs = py_zip3 (map (subarray a) [0..<N]) axl [0..<N]
                in if length rest < 2 \<and> xs \<noteq> [] then []
                   else concat (map round_calls xs) @ [Tight_layout, Show])))"

definition channels_error :: "('a, 'e) backend \<Rightarrow> 'a ndarray \<Rightarrow> 'e error option" where
  "channels_error B a =
     (case shape a of
        [] \<Rightarrow> Some IndexError
      | N # rest \<Rightarrow>
          (case subplots_ret B N of
             Single_Axes ax \<Rightarrow> Some TypeError
           | Axes_Array axl \<Rightarrow>
               if length rest < 2 \<and> py_zip3 (map (subarray a) [0..<N]) axl [0..<N] \<noteq> []
               then Some IndexError else None))"

text \<open>
  The first of the calls \<open>cs\<close>, issued in this order after \<open>h\<close>, at which the library
  raises: its position and the exception.
\<close>

fun first_raise :: "('a, 'e) backend \<Rightarrow> 'a call list \<Rightarrow> 'a call list \<Rightarrow> (nat \<times> 'e) option" where
  "first_raise B h [] = None"
| "first_raise B h (c # cs) =
     (case raises B h c of
        Some e \<Rightarrow> Some (0, e)
      | None \<Rightarrow> map_option (\<lambda>(i, e). (Suc i, e)) (first_raise B (h @ [c]) cs))"

text \<open>
  Issuing \<open>plan\<close> and then ending with \<open>own\<close>: the first exception of the library
  ends the call at once and is its result; without one, all of \<open>plan\<close> is issued and the
  result is \<open>own\<close>, or a normal return when there is none.
\<close>

definition outcome ::
  "('a, 'e) backend \<Rightarrow> 'a call list \<Rightarrow> 'e error option \<Rightarrow> ('a, 'e, unit) py" where
  "outcome B plan own w =
     (case first_raise B (calls w) plan of
        Some (i, e) \<Rightarrow> (Inl (Backend e), w\<lparr>calls := calls w @ take (Suc i) plan\<rparr>)
      | None \<Rightarrow>
          (case own of None \<Rightarrow> Inr () | Some x \<Rightarrow> Inl x, w\<lparr>calls := calls w @ plan\<rparr>))"

definition final :: "'e error option \<Rightarrow> ('a, 'e, unit) py" where
  "final own = (case own of None \<Rightarrow> return_py () | Some x \<Rightarrow> raise_py x)"

subsection \<open>Inputs for the examples\<close>

text \<open>A state where every parameter refers to \<open>a\<close> and no call has been issued.\<close>

definition world_with :: "'a ndarray \<Rightarrow> 'a world" where
  "world_with a = \<lparr>arrays = (\<lambda>_. a), calls = []\<rparr>"

definition image_2x3 :: "int ndarray" where
  "image_2x3 = \<lparr>shape = [2, 3], data = [1, 2, 3, 4, 5, 6]\<rparr>"

definition image_2x3_dark :: "int ndarray" where
  "image_2x3_dark = \<lparr>shape = [2, 3], data = [0, 0, 0, 0, 0, 9]\<rparr>"

definition image_1x1 :: "int ndarray" where
  "image_1x1 = \<lparr>shape = [1, 1], data = [7]\<rparr>"

definition stack_1x1x1 :: "int ndarray" where
  "stack_1x1x1 = \<lparr>shape = [1, 1, 1], data = [5]\<rparr>"

definition stack_1x2x2 :: "int ndarray" where
  "stack_1x2x2 = \<lparr>shape = [1, 2, 2], data = [1, 2, 3, 4]\<rparr>"

definition stack_2x1x2 :: "int ndarray" where
  "stack_2x1x2 = \<lparr>shape = [2, 1, 2], data = [1, 2, 3, 4]\<rparr>"

definition stack_0x1x2 :: "int ndarray" where
  "stack_0x1x2 = \<lparr>shape = [0, 1, 2], data = []\<rparr>"

definition vector_3 :: "int ndarray" where
  "vector_3 = \<lparr>shape = [3], data = [1, 2, 3]\<rparr>"

text \<open>A library whose \<^verbatim>\<open>grid\<close> raises, and one that raises nothing.\<close>

definition grid_fails :: "('a, mpl_error) backend" where
  "grid_fails =
     \<lparr>raises = (\<lambda>h c. case c of Grid color linewidth \<Rightarrow> Some (ValueError ''grid'') | _ \<Rightarrow> None),
      subplots_ret = (\<lambda>n. Axes_Array [0..<n])\<rparr>"


definition quiet_backend :: "('a, mpl_error) backend" where
  "quiet_backend = \<lparr>raises = (\<lambda>h c. None), subplots_ret = (\<lambda>n. Axes_Array [0..<n])\<rparr>"

section \<open>Running the statements\<close>

lemma bind_return [simp]: "bind_py (return_py x) f = f x"
  by (rule ext) (simp add: bind_py_def return_py_def)

lemma bind_raise [simp]: "bind_py (raise_py e) f = raise_py e"
  by (rule ext) (simp add: bind_py_def raise_py_def)

lemma bind_load [simp]: "bind_py (load p) f w = f (arrays w p) w"
  by (simp add: bind_py_def load_def)

lemma bind_call:
  "bind_py (backend_call B c) f w =
     (case raises B (calls w) c of
        Some e \<Rightarrow> (Inl (Backend e), w\<lparr>calls := calls w @ [c]\<rparr>)
      | None \<Rightarrow> f () (w\<lparr>calls := calls w @ [c]\<rparr>))"
  by (simp add: bind_py_def backend_call_def split: option.split)

lemma bind_subplots:
  "bind_py (subplots B nrows ncols) f w =
     (case raises B (calls w) (Subplots nrows ncols) of
        Some e \<Rightarrow> (Inl (Backend e), w\<lparr>calls := calls w @ [Subplots nrows ncols]\<rparr>)
      | None \<Rightarrow> f (subplots_ret B ncols) (w\<lparr>calls := calls w @ [Subplots nrows ncols]\<rparr>))"
  by (simp add: subplots_def bind_py_def backend_call_def return_py_def split: option.split)

lemma shape_at_2d [simp]:
  "shape a = R # C # rest \<Longrightarrow> shape_at a 0 = return_py R"
  "shape a = R # C # rest \<Longrightarrow> shape_at a 1 = return_py C"
  "shape a = R # C # rest \<Longrightarrow> shape_at a (Suc 0) = return_py C"
  by (simp_all add: shape_at_def)

lemma shape_at_1 [simp]:
  "length (shape a) < 2 \<Longrightarrow> shape_at a 1 = raise_py IndexError"
  "length (shape a) < 2 \<Longrightarrow> shape_at a (Suc 0) = raise_py IndexError"
  by (simp_all add: shape_at_def)

lemma shape_at_0 [simp]: "shape a = N # rest \<Longrightarrow> shape_at a 0 = return_py N"
  by (simp add: shape_at_def)

lemma iter_ndarray_ok [simp]:
  "shape a = N # rest \<Longrightarrow> iter_ndarray a = return_py (map (subarray a) [0..<N])"
  by (simp add: iter_ndarray_def)

lemma two_dims: "\<not> length xs < 2 \<Longrightarrow> \<exists>R C rest. xs = R # C # rest"
  by (cases xs; cases "tl xs") auto

lemma issued_append [simp]: "issued w (w\<lparr>calls := calls w @ cs\<rparr>) = cs"
  by (simp add: issued_def)

lemma in_set_map_filter:
  "y \<in> set (List.map_filter f xs) \<longleftrightarrow> (\<exists>x\<in>set xs. f x = Some y)"
  by (induction xs) (auto split: option.splits)

lemma accepted_append:
  "accepted B h (xs @ ys) = (accepted B h xs \<and> accepted B (h @ xs) ys)"
  by (induction xs arbitrary: h) auto

lemma accepted_quiet: "\<forall>h c. raises B h c = None \<Longrightarrow> accepted B h cs"
  by (induction cs arbitrary: h) auto

lemma accepted_nth:
  "accepted B h cs \<Longrightarrow> i < length cs \<Longrightarrow> raises B (h @ take i cs) (cs ! i) = None"
proof (induction cs arbitrary: h i)
  case Nil
  then show ?case by simp
next
  case (Cons c cs)
  show ?case
  proof (cases i)
    case 0
    with Cons.prems show ?thesis by simp
  next
    case (Suc j)
    with Cons.prems have "raises B ((h @ [c]) @ take j cs) (cs ! j) = None"
      by (intro Cons.IH) auto
    with Suc show ?thesis by simp
  qed
qed

subsection \<open>plot_image: what a call that returns has done, and when it returns\<close>

lemma plot_image_returns:
  assumes "plot_image B img w = (Inr u, w')" and "shape (arrays w img) = R # C # rest"
  shows "w' = w\<lparr>calls := calls w @
           [Import_pyplot, Imshow (arrays w img) ''gray'' ''equal'' [0, C, 0, R], Grid ''red'' 1,
            Xticks [0..<C + 1], Yticks [0..<R + 1], Tight_layout, Show]\<rparr>"
  using assms
  by (simp add: plot_image_def bind_call backend_call_def py_range_def split: option.splits)

lemma plot_image_needs_2d:
  assumes "plot_image B img w = (Inr u, w')"
  shows "\<not> length (shape (arrays w img)) < 2"
proof
  assume "length (shape (arrays w img)) < 2"
  with assms show False
    by (simp add: plot_image_def bind_call raise_py_def split: option.splits)
qed

lemma plot_image_accepted:
  assumes "shape (arrays w img) = R # C # rest"
      and "accepted B (calls w)
             [Import_pyplot, Imshow (arrays w img) ''gray'' ''equal'' [0, C, 0, R], Grid ''red'' 1,
              Xticks [0..<C + 1], Yticks [0..<R + 1], Tight_layout, Show]"
  shows "plot_image B img w = (Inr (), w\<lparr>calls := calls w @
           [Import_pyplot, Imshow (arrays w img) ''gray'' ''equal'' [0, C, 0, R], Grid ''red'' 1,
            Xticks [0..<C + 1], Yticks [0..<R + 1], Tight_layout, Show]\<rparr>)"
  using assms
  by (simp add: plot_image_def bind_call backend_call_def py_range_def)

subsection \<open>The loop of plot_channels\<close>

lemma loop_body_returns:
  assumes "loop_body B x w = (Inr u, w')"
  shows "w' = w\<lparr>calls := calls w @ round_calls x\<rparr>"
proof (cases x)
  case (fields channel ax i)
  show ?thesis
  proof (cases "length (shape channel) < 2")
    case True
    with assms fields show ?thesis
      by (simp add: loop_body_def raise_py_def)
  next
    case False
    then obtain R C rest where "shape channel = R # C # rest"
      using two_dims by blast
    with assms fields show ?thesis
      by (simp add: loop_body_def round_calls_def bind_call backend_call_def py_range_def
               split: option.splits)
  qed
qed

lemma for_each_returns:
  "for_each (loop_body B) xs w = (Inr u, w') \<Longrightarrow>
     w' = w\<lparr>calls := calls w @ concat (map round_calls xs)\<rparr>"
proof (induction xs arbitrary: w)
  case Nil
  then show ?case by (simp add: return_py_def)
next
  case (Cons x xs)
  from Cons.prems obtain w1 where
    first: "loop_body B x w = (Inr (), w1)" and
    others: "for_each (loop_body B) xs w1 = (Inr u, w')"
    by (auto simp: bind_py_def split: prod.splits sum.splits)
  from loop_body_returns [OF first] have "w1 = w\<lparr>calls := calls w @ round_calls x\<rparr>" .
  with Cons.IH [OF others] show ?case by simp
qed

lemma loop_body_accepted:
  assumes "shape (fst x) = R # C # rest" and "accepted B (calls w) (round_calls x)"
  shows "loop_body B x w = (Inr (), w\<lparr>calls := calls w @ round_calls x\<rparr>)"
  using assms
  by (cases x)
     (simp add: loop_body_def round_calls_def bind_call backend_call_def py_range_def)

lemma for_each_accepted:
  assumes "\<forall>x\<in>set xs. shape (fst x) = R # C # rest"
      and "accepted B (calls w) (concat (map round_calls xs))"
  shows "for_each (loop_body B) xs w =
           (Inr (), w\<lparr>calls := calls w @ concat (map round_calls xs)\<rparr>)"
  using assms
proof (induction xs arbitrary: w)
  case Nil
  then show ?case by (simp add: return_py_def)
next
  case (Cons x xs)
  from Cons.prems have
    x: "shape (fst x) = R # C # rest" "accepted B (calls w) (round_calls x)" and
    xs: "\<forall>y\<in>set xs. shape (fst y) = R # C # rest"
        "accepted B (calls w @ round_calls x) (concat (map round_calls xs))"
    by (simp_all add: accepted_append)
  let ?w1 = "w\<lparr>calls := calls w @ round_calls x\<rparr>"
  from xs have "for_each (loop_body B) xs ?w1 =
      (Inr (), ?w1\<lparr>calls := calls ?w1 @ concat (map round_calls xs)\<rparr>)"
    by (intro Cons.IH) simp_all
  with loop_body_accepted [OF x] show ?case
    by (simp add: bind_py_def)
qed

lemma zip3_shapes:
  "x \<in> set (py_zip3 (map (subarray a) ks) axl is) \<Longrightarrow> shape (fst x) = tl (shape a)"
  by (cases x) (auto simp: py_zip3_def subarray_def Let_def dest!: set_zip_leftD)

lemma zip3_map:
  "py_zip3 (map f ks) axl is = map (\<lambda>(k, ax, i). (f k, ax, i)) (py_zip3 ks axl is)"
  by (simp add: py_zip3_def zip_map1 split_def)

lemma zip3_upt:
  "py_zip3 (map f [0..<N]) [0..<N] [0..<N] = map (\<lambda>i. (f i, i, i)) [0..<N]"
  by (induction N) (simp_all add: py_zip3_def)

subsection \<open>plot_channels, statement by statement\<close>

lemma plot_channels_unfold:
  assumes "shape (arrays w channels) = N # rest"
  shows "plot_channels B channels w =
     (case raises B (calls w) Import_pyplot of
        Some e \<Rightarrow> (Inl (Backend e), w\<lparr>calls := calls w @ [Import_pyplot]\<rparr>)
      | None \<Rightarrow>
         (case raises B (calls w @ [Import_pyplot]) (Subplots 1 N) of
            Some e \<Rightarrow> (Inl (Backend e), w\<lparr>calls := calls w @ [Import_pyplot, Subplots 1 N]\<rparr>)
          | None \<Rightarrow>
             (case subplots_ret B N of
                Single_Axes ax \<Rightarrow> (Inl TypeError, w\<lparr>calls := calls w @ [Import_pyplot, Subplots 1 N]\<rparr>)
              | Axes_Array axl \<Rightarrow>
                  bind_py (for_each (loop_body B)
                             (py_zip3 (map (subarray (arrays w channels)) [0..<N]) axl [0..<N]))
                    (\<lambda>_. bind_py (backend_call B Tight_layout) (\<lambda>_. backend_call B Show))
                    (w\<lparr>calls := calls w @ [Import_pyplot, Subplots 1 N]\<rparr>))))"
  using assms
  by (simp add: plot_channels_def bind_subplots iter_axes_def bind_call py_range_def raise_py_def
        split: option.splits axes_ret.splits)

lemma plot_channels_returns:
  assumes "plot_channels B channels w = (Inr u, w')"
      and "shape (arrays w channels) = N # rest"
  shows "\<exists>axl. subplots_ret B N = Axes_Array axl \<and>
           w' = w\<lparr>calls := calls w @ [Import_pyplot, Subplots 1 N] @
                  concat (map round_calls
                    (py_zip3 (map (subarray (arrays w channels)) [0..<N]) axl [0..<N])) @
                  [Tight_layout, Show]\<rparr>"
proof (cases "subplots_ret B N")
  case (Single_Axes ax)
  with assms show ?thesis
    by (simp add: plot_channels_unfold split: option.splits)
next
  case (Axes_Array axl)
  let ?xs = "py_zip3 (map (subarray (arrays w channels)) [0..<N]) axl [0..<N]"
  let ?w1 = "w\<lparr>calls := calls w @ [Import_pyplot, Subplots 1 N]\<rparr>"
  from assms Axes_Array have
    run: "bind_py (for_each (loop_body B) ?xs)
            (\<lambda>_. bind_py (backend_call B Tight_layout) (\<lambda>_. backend_call B Show)) ?w1 = (Inr u, w')"
    by (simp add: plot_channels_unfold split: option.splits)
  then obtain w2 where
    loop: "for_each (loop_body B) ?xs ?w1 = (Inr (), w2)" and
    tail: "bind_py (backend_call B Tight_layout) (\<lambda>_. backend_call B Show) w2 = (Inr u, w')"
    by (auto simp: bind_py_def [of "for_each (loop_body B) ?xs"] split: prod.splits sum.splits)
  from tail have "w' = w2\<lparr>calls := calls w2 @ [Tight_layout, Show]\<rparr>"
    by (simp add: bind_call backend_call_def split: option.splits)
  with for_each_returns [OF loop] Axes_Array show ?thesis by simp
qed

lemma plot_channels_accepted:
  assumes "shape (arrays w channels) = N # R # C # rest"
      and "subplots_ret B N = Axes_Array axl"
      and "accepted B (calls w) ([Import_pyplot, Subplots 1 N] @
             concat (map round_calls
               (py_zip3 (map (subarray (arrays w channels)) [0..<N]) axl [0..<N])) @
             [Tight_layout, Show])"
  shows "plot_channels B channels w =
           (Inr (), w\<lparr>calls := calls w @ [Import_pyplot, Subplots 1 N] @
                  concat (map round_calls
                    (py_zip3 (map (subarray (arrays w channels)) [0..<N]) axl [0..<N])) @
                  [Tight_layout, Show]\<rparr>)"
proof -
  let ?xs = "py_zip3 (map (subarray (arrays w channels)) [0..<N]) axl [0..<N]"
  let ?w1 = "w\<lparr>calls := calls w @ [Import_pyplot, Subplots 1 N]\<rparr>"
  have shapes: "\<forall>x\<in>set ?xs. shape (fst x) = R # C # rest"
    using assms(1) by (auto dest: zip3_shapes)
  from assms(3) have
    head: "raises B (calls w) Import_pyplot = None"
          "raises B (calls w @ [Import_pyplot]) (Subplots 1 N) = None" and
    body: "accepted B (calls ?w1) (concat (map round_calls ?xs))" and
    tail: "accepted B (calls ?w1 @ concat (map round_calls ?xs)) [Tight_layout, Show]"
    by (simp_all add: accepted_append)
  from for_each_accepted [OF shapes body] head tail assms(1,2) show ?thesis
    by (simp add: plot_channels_unfold bind_py_def [of "for_each _ _"] bind_call backend_call_def)
qed

subsection \<open>With the library as matplotlib documents it\<close>

lemma accepted_pyplot:
  "accepted pyplot h cs = (\<forall>c\<in>set cs. raises pyplot [] c = None)"
proof (induction cs arbitrary: h)
  case Nil
  show ?case by simp
next
  case (Cons c cs)
  have "raises pyplot h c = raises pyplot [] c"
    by (simp add: pyplot_def)
  with Cons show ?case by simp
qed

text \<open>
  Two channels or more: the call returns, having created one row of N subplots and
  drawn channel \<open>i\<close> into subplot \<open>i\<close> under the title \<^verbatim>\<open>Channel i\<close>, for
  \<open>i\<close> from 0 to N - 1 in this order.
\<close>

lemma plot_channels_pyplot_many:
  assumes "shape (arrays w channels) = [N, R, C]" and "2 \<le> N"
  shows "plot_channels pyplot channels w =
           (Inr (), w\<lparr>calls := calls w @ [Import_pyplot, Subplots 1 N] @
              concat (map (subplot_calls (arrays w channels) R C) [0..<N]) @
              [Tight_layout, Show]\<rparr>)"
proof -
  let ?a = "arrays w channels"
  have ret: "subplots_ret pyplot N = Axes_Array [0..<N]"
    using assms(2) by (simp add: pyplot_def)
  have round: "round_calls (subarray ?a i, i, i) = subplot_calls ?a R C i" for i
    using assms(1) by (simp add: round_calls_def subplot_calls_def subarray_def Let_def)
  have list: "concat (map round_calls (py_zip3 (map (subarray ?a) [0..<N]) [0..<N] [0..<N])) =
              concat (map (subplot_calls ?a R C) [0..<N])"
    by (simp add: zip3_upt comp_def round)
  have "accepted pyplot (calls w) ([Import_pyplot, Subplots 1 N] @
          concat (map (subplot_calls ?a R C) [0..<N]) @ [Tight_layout, Show])"
    using assms(2) by (subst accepted_pyplot) (auto simp: pyplot_def subplot_calls_def)
  with plot_channels_accepted [OF assms(1) ret] list show ?thesis
    by simp
qed

lemma py_str_digits: "py_str 0 = ''0''" "py_str 1 = ''1''" "py_str (Suc 0) = ''1''"
  by (simp_all add: py_str.simps)

lemma image_2x3_run:
  "plot_image pyplot 0 (world_with image_2x3) =
     (Inr (), \<lparr>arrays = (\<lambda>_. image_2x3),
               calls = [Import_pyplot, Imshow image_2x3 ''gray'' ''equal'' [0, 3, 0, 2],
                        Grid ''red'' 1, Xticks [0, 1, 2, 3], Yticks [0, 1, 2],
                        Tight_layout, Show]\<rparr>)"
  using plot_image_accepted [of "world_with image_2x3" 0 2 3 "[]" pyplot]
  by (simp add: world_with_def image_2x3_def pyplot_def upt_rec)

lemma image_2x3_dark_run:
  "plot_image pyplot 0 (world_with image_2x3_dark) =
     (Inr (), \<lparr>arrays = (\<lambda>_. image_2x3_dark),
               calls = [Import_pyplot, Imshow image_2x3_dark ''gray'' ''equal'' [0, 3, 0, 2],
                        Grid ''red'' 1, Xticks [0, 1, 2, 3], Yticks [0, 1, 2],
                        Tight_layout, Show]\<rparr>)"
  using plot_image_accepted [of "world_with image_2x3_dark" 0 2 3 "[]" pyplot]
  by (simp add: world_with_def image_2x3_dark_def pyplot_def upt_rec)

lemma stack_2x1x2_run:
  "plot_channels pyplot 0 (world_with stack_2x1x2) =
     (Inr (), \<lparr>arrays = (\<lambda>_. stack_2x1x2),
        calls = [Import_pyplot, Subplots 1 2,
          Ax_imshow 0 \<lparr>shape = [1, 2], data = [1, 2]\<rparr> ''gray'' ''equal'' [0, 2, 0, 1],
          Ax_grid 0 ''red'' 1, Ax_set_title 0 ''Channel 0'',
          Ax_set_xticks 0 [0, 1, 2], Ax_set_yticks 0 [0, 1],
          Ax_imshow 1 \<lparr>shape = [1, 2], data = [3, 4]\<rparr> ''gray'' ''equal'' [0, 2, 0, 1],
          Ax_grid 1 ''red'' 1, Ax_set_title 1 ''Channel 1'',
          Ax_set_xticks 1 [0, 1, 2], Ax_set_yticks 1 [0, 1],
          Tight_layout, Show]\<rparr>)"
  using plot_channels_accepted [of "world_with stack_2x1x2" 0 2 1 2 "[]" pyplot "[0, 1]"]
  by (simp add: world_with_def stack_2x1x2_def pyplot_def upt_rec py_zip3_def round_calls_def
        subarray_def py_str_digits)

subsection \<open>Every statement is orderly\<close>

lemma orderlyI:
  assumes "\<And>w. \<exists>cs. snd (m w) = w\<lparr>calls := calls w @ cs\<rparr> \<and> trace_ok B (calls w) cs (fst (m w))"
  shows "orderly B m"
  using assms by (simp add: orderly_def)

lemma orderlyD:
  assumes "orderly B m"
  shows "\<exists>cs. snd (m w) = w\<lparr>calls := calls w @ cs\<rparr> \<and> trace_ok B (calls w) cs (fst (m w))"
  using assms by (simp add: orderly_def)

lemma orderly_return: "orderly B (return_py x)"
  by (rule orderlyI, rule exI [of _ "[]"]) (simp add: return_py_def trace_ok_def)

lemma orderly_raise: "e = IndexError \<or> e = TypeError \<Longrightarrow> orderly B (raise_py e)"
  by (rule orderlyI, rule exI [of _ "[]"]) (auto simp: raise_py_def trace_ok_def)

lemma orderly_load: "orderly B (load p)"
  by (rule orderlyI, rule exI [of _ "[]"]) (simp add: load_def trace_ok_def)

lemma orderly_backend_call: "orderly B (backend_call B c)"
  by (rule orderlyI, rule exI [of _ "[c]"])
     (simp add: backend_call_def trace_ok_def split: option.split)

lemma orderly_bind:
  assumes "orderly B m" and "\<And>x. orderly B (f x)"
  shows "orderly B (bind_py m f)"
proof (rule orderlyI)
  fix w
  from orderlyD [OF assms(1), of w] obtain cs1 where
    w1: "snd (m w) = w\<lparr>calls := calls w @ cs1\<rparr>" and t1: "trace_ok B (calls w) cs1 (fst (m w))"
    by blast
  show "\<exists>cs. snd (bind_py m f w) = w\<lparr>calls := calls w @ cs\<rparr> \<and>
          trace_ok B (calls w) cs (fst (bind_py m f w))"
  proof (cases "fst (m w)")
    case (Inl e)
    then have "bind_py m f w = (Inl e, snd (m w))"
      by (cases "m w") (simp add: bind_py_def)
    with w1 t1 Inl show ?thesis
      by (intro exI [of _ cs1]) (simp add: trace_ok_def)
  next
    case (Inr x)
    let ?w1 = "w\<lparr>calls := calls w @ cs1\<rparr>"
    from Inr w1 have run: "bind_py m f w = f x ?w1"
      by (cases "m w") (simp add: bind_py_def)
    from Inr t1 have a1: "accepted B (calls w) cs1"
      by (simp add: trace_ok_def)
    from orderlyD [OF assms(2), of x ?w1] obtain cs2 where
      w2: "snd (f x ?w1) = w\<lparr>calls := calls w @ cs1 @ cs2\<rparr>" and
      t2: "trace_ok B (calls w @ cs1) cs2 (fst (f x ?w1))"
      by auto
    have "trace_ok B (calls w) (cs1 @ cs2) (fst (f x ?w1))"
      using a1 t2
      by (auto simp: trace_ok_def accepted_append butlast_append
            split: sum.splits error.splits)
    with w2 run show ?thesis
      by (intro exI [of _ "cs1 @ cs2"]) simp
  qed
qed

lemma orderly_shape_at: "orderly B (shape_at a k)"
  by (simp add: shape_at_def orderly_return orderly_raise)

lemma orderly_iter_ndarray: "orderly B (iter_ndarray a)"
  by (simp add: iter_ndarray_def orderly_return orderly_raise split: list.split)

lemma orderly_iter_axes: "orderly B (iter_axes axs)"
  by (simp add: iter_axes_def orderly_return orderly_raise split: axes_ret.split)

lemma orderly_subplots: "orderly B (subplots B nrows ncols)"
  unfolding subplots_def
  by (intro orderly_bind orderly_backend_call orderly_return)

lemma orderly_loop_body: "orderly B (loop_body B x)"
  unfolding loop_body_def split_def
  by (intro orderly_bind orderly_backend_call orderly_shape_at)

lemma orderly_for_each:
  assumes "\<And>x. orderly B (f x)"
  shows "orderly B (for_each f xs)"
  by (induction xs) (auto intro: orderly_bind orderly_return assms)

lemma orderly_plot_image: "orderly B (plot_image B img)"
  unfolding plot_image_def
  by (intro orderly_bind orderly_backend_call orderly_shape_at orderly_load)

lemma orderly_plot_channels: "orderly B (plot_channels B channels)"
  unfolding plot_channels_def
  by (intro orderly_bind orderly_backend_call orderly_shape_at orderly_load orderly_subplots
        orderly_iter_ndarray orderly_iter_axes orderly_for_each orderly_loop_body)

lemma trace_ok_raise:
  assumes "trace_ok B h cs res" and "i < length cs"
      and "raises B (h @ take i cs) (cs ! i) = Some e"
  shows "res = Inl (Backend e) \<and> Suc i = length cs"
proof (cases "\<exists>e'. res = Inl (Backend e')")
  case False
  then have "accepted B h cs"
    using assms(1) by (auto simp: trace_ok_def split: sum.splits error.splits)
  from accepted_nth [OF this assms(2)] assms(3) show ?thesis by simp
next
  case True
  then obtain e' where res: "res = Inl (Backend e')" by blast
  with assms(1) have
    nonempty: "cs \<noteq> []" and
    before: "accepted B h (butlast cs)" and
    at_last: "raises B (h @ butlast cs) (last cs) = Some e'"
    by (simp_all add: trace_ok_def)
  show ?thesis
  proof (cases "Suc i = length cs")
    case True
    then have "i = length cs - 1" by simp
    with nonempty have "take i cs = butlast cs" "cs ! i = last cs"
      by (simp_all add: butlast_conv_take last_conv_nth)
    with assms(3) at_last res True show ?thesis by simp
  next
    case False
    with assms(2) have i: "i < length (butlast cs)" by simp
    from accepted_nth [OF before i] have "raises B (h @ take i cs) (cs ! i) = None"
      using i by (simp add: nth_butlast take_butlast)
    with assms(3) show ?thesis by simp
  qed
qed

subsection \<open>Blanking the pixels\<close>

lemma forget_round_calls:
  assumes "shape a = shape b"
  shows "map forget_pixels (round_calls (subarray a k, y)) =
         map forget_pixels (round_calls (subarray b k, y))"
  using assms by (cases y) (simp add: round_calls_def subarray_def Let_def)

lemma forget_rounds:
  assumes "shape a = shape b"
  shows "map forget_pixels (concat (map round_calls (py_zip3 (map (subarray a) ks) axl is))) =
         map forget_pixels (concat (map round_calls (py_zip3 (map (subarray b) ks) axl is)))"
proof -
  have "(\<lambda>x. map forget_pixels (round_calls (subarray a (fst x), snd x))) =
        (\<lambda>x. map forget_pixels (round_calls (subarray b (fst x), snd x)))"
    by (rule ext) (rule forget_round_calls [OF assms])
  then show ?thesis
    by (simp add: zip3_map map_concat comp_def split_def)
qed

subsection \<open>The functions issue their calls in order and end as the array says\<close>

lemma bind_assoc: "bind_py (bind_py m f) g = bind_py m (\<lambda>x. bind_py (f x) g)"
  by (rule ext) (simp add: bind_py_def split: prod.split sum.split)

lemma issue_step:
  "bind_py (for_each (backend_call B) (c # plan)) k w =
     (case raises B (calls w) c of
        Some e \<Rightarrow> (Inl (Backend e), w\<lparr>calls := calls w @ [c]\<rparr>)
      | None \<Rightarrow> bind_py (for_each (backend_call B) plan) k (w\<lparr>calls := calls w @ [c]\<rparr>))"
  unfolding for_each.simps bind_assoc by (simp add: bind_call)

lemma issue_nil: "bind_py (for_each f []) k w = k () w"
  by simp

lemma issue_outcome:
  "bind_py (for_each (backend_call B) plan) (\<lambda>_. final own) w = outcome B plan own w"
proof (induction plan arbitrary: w)
  case Nil
  show ?case
    by (simp add: outcome_def) (simp add: final_def return_py_def raise_py_def split: option.split)
next
  case (Cons c plan)
  show ?case
  proof (cases "raises B (calls w) c")
    case (Some e)
    then show ?thesis
      by (simp add: issue_step outcome_def del: for_each.simps)
  next
    case None
    let ?w1 = "w\<lparr>calls := calls w @ [c]\<rparr>"
    from None have "bind_py (for_each (backend_call B) (c # plan)) (\<lambda>_. final own) w =
                    bind_py (for_each (backend_call B) plan) (\<lambda>_. final own) ?w1"
      by (simp add: issue_step del: for_each.simps)
    also have "\<dots> = outcome B plan own ?w1"
      by (rule Cons.IH)
    also have "\<dots> = outcome B (c # plan) own w"
      using None by (auto simp: outcome_def split: option.splits)
    finally show ?thesis .
  qed
qed

lemma plot_image_issue:
  "plot_image B img w =
     bind_py (for_each (backend_call B) (image_calls (arrays w img)))
       (\<lambda>_. final (image_error (arrays w img))) w"
proof (cases "length (shape (arrays w img)) < 2")
  case True
  then show ?thesis
    by (simp add: plot_image_def image_calls_def image_error_def final_def issue_step issue_nil
          bind_call del: for_each.simps split: option.split)
next
  case False
  then obtain R C rest where "shape (arrays w img) = R # C # rest"
    using two_dims by blast
  then show ?thesis
    by (simp add: plot_image_def image_calls_def image_error_def final_def issue_step issue_nil
          bind_call py_range_def backend_call_def return_py_def
          del: for_each.simps split: option.splits)
qed

lemma issue_append:
  "bind_py (for_each f (xs @ ys)) k = bind_py (for_each f xs) (\<lambda>_. bind_py (for_each f ys) k)"
  by (induction xs) (simp_all add: bind_assoc)

lemma bind_unit: "bind_py m return_py = m"
  by (rule ext) (simp add: bind_py_def return_py_def split: prod.split sum.split)

lemma loop_body_issue:
  assumes "shape (fst x) = R # C # rest"
  shows "loop_body B x = for_each (backend_call B) (round_calls x)"
  using assms
  by (cases x) (simp add: loop_body_def round_calls_def py_range_def bind_unit)

lemma loop_issue:
  assumes "\<forall>x\<in>set xs. shape (fst x) = R # C # rest"
  shows "bind_py (for_each (loop_body B) xs) k w =
         bind_py (for_each (backend_call B) (concat (map round_calls xs))) k w"
  using assms
proof (induction xs arbitrary: w)
  case Nil
  show ?case by simp
next
  case (Cons x xs)
  then have x: "shape (fst x) = R # C # rest" and
    xs: "\<forall>y\<in>set xs. shape (fst y) = R # C # rest"
    by simp_all
  have "bind_py (for_each (loop_body B) (x # xs)) k w =
        bind_py (loop_body B x) (\<lambda>_. bind_py (for_each (loop_body B) xs) k) w"
    by (simp add: bind_assoc)
  also have "\<dots> = bind_py (for_each (backend_call B) (round_calls x))
                     (\<lambda>_. bind_py (for_each (loop_body B) xs) k) w"
    by (simp only: loop_body_issue [OF x])
  also have "(\<lambda>_::unit. bind_py (for_each (loop_body B) xs) k) =
             (\<lambda>_. bind_py (for_each (backend_call B) (concat (map round_calls xs))) k)"
    by (intro ext Cons.IH xs)
  finally show ?case
    by (simp add: issue_append del: for_each.simps)
qed

lemma loop_body_index_error:
  assumes "length (shape (fst x)) < 2"
  shows "bind_py (for_each (loop_body B) (x # xs)) k w = (Inl IndexError, w)"
  using assms
  by (cases x) (simp add: loop_body_def bind_assoc raise_py_def)

lemma issue_head:
  "bind_py (for_each (backend_call B) ([c1, c2] @ cs)) k w =
     (case raises B (calls w) c1 of
        Some e \<Rightarrow> (Inl (Backend e), w\<lparr>calls := calls w @ [c1]\<rparr>)
      | None \<Rightarrow>
         (case raises B (calls w @ [c1]) c2 of
            Some e \<Rightarrow> (Inl (Backend e), w\<lparr>calls := calls w @ [c1, c2]\<rparr>)
          | None \<Rightarrow> bind_py (for_each (backend_call B) cs) k (w\<lparr>calls := calls w @ [c1, c2]\<rparr>)))"
  by (simp add: issue_step del: for_each.simps split: option.split)

lemma issue_tail:
  "bind_py (for_each (backend_call B) [Tight_layout, Show]) (\<lambda>_. final None) =
   bind_py (backend_call B Tight_layout) (\<lambda>_. backend_call B Show)"
  by (rule ext) (simp add: issue_step issue_nil final_def bind_call backend_call_def return_py_def
        del: for_each.simps split: option.split)

lemma plot_channels_issue:
  "plot_channels B channels w =
     bind_py (for_each (backend_call B) (channels_calls B (arrays w channels)))
       (\<lambda>_. final (channels_error B (arrays w channels))) w"
proof (cases "shape (arrays w channels)")
  case Nil
  then show ?thesis
    by (simp add: plot_channels_def channels_calls_def channels_error_def final_def issue_step
          issue_nil bind_call shape_at_def del: for_each.simps split: option.split)
next
  case (Cons N rest)
  let ?a = "arrays w channels"
  let ?w1 = "w\<lparr>calls := calls w @ [Import_pyplot, Subplots 1 N]\<rparr>"
  show ?thesis
  proof (cases "subplots_ret B N")
    case (Single_Axes ax)
    with Cons show ?thesis
      by (simp add: plot_channels_unfold channels_calls_def channels_error_def final_def
            issue_step issue_nil raise_py_def del: for_each.simps split: option.split)
  next
    case (Axes_Array axl)
    let ?xs = "py_zip3 (map (subarray ?a) [0..<N]) axl [0..<N]"
    let ?k = "\<lambda>_::unit. bind_py (backend_call B Tight_layout) (\<lambda>_. backend_call B Show)"
    have loop: "bind_py (for_each (loop_body B) ?xs) ?k ?w1 =
                bind_py (for_each (backend_call B)
                           (if length rest < 2 \<and> ?xs \<noteq> [] then []
                            else concat (map round_calls ?xs) @ [Tight_layout, Show]))
                  (\<lambda>_. final (if length rest < 2 \<and> ?xs \<noteq> [] then Some IndexError else None)) ?w1"
    proof (cases "length rest < 2 \<and> ?xs \<noteq> []")
      case True
      then obtain x xs' where xs: "?xs = x # xs'"
        by (cases ?xs) auto
      then have "x \<in> set ?xs" by simp
      from zip3_shapes [OF this] Cons True have "length (shape (fst x)) < 2" by simp
      from loop_body_index_error [OF this] True xs show ?thesis
        by (simp add: issue_nil final_def raise_py_def del: for_each.simps)
    next
      case False
      show ?thesis
      proof (cases "?xs = []")
        case True
        then show ?thesis
          by (simp add: issue_nil issue_tail del: for_each.simps)
      next
        case nonempty: False
        with False have "\<not> length rest < 2" by simp
        then obtain R C rest' where rest: "rest = R # C # rest'"
          using two_dims by blast
        have "\<forall>x\<in>set ?xs. shape (fst x) = R # C # rest'"
          using Cons rest by (auto dest: zip3_shapes)
        from loop_issue [OF this]
        have "bind_py (for_each (loop_body B) ?xs) ?k ?w1 =
              bind_py (for_each (backend_call B) (concat (map round_calls ?xs))) ?k ?w1" .
        also have "\<dots> = bind_py (for_each (backend_call B)
                               (concat (map round_calls ?xs) @ [Tight_layout, Show]))
                             (\<lambda>_. final None) ?w1"
          by (simp only: issue_append issue_tail)
        finally show ?thesis
          unfolding if_not_P [OF False] .
      qed
    qed
    have lhs: "plot_channels B channels w =
      (case raises B (calls w) Import_pyplot of
         Some e \<Rightarrow> (Inl (Backend e), w\<lparr>calls := calls w @ [Import_pyplot]\<rparr>)
       | None \<Rightarrow>
          (case raises B (calls w @ [Import_pyplot]) (Subplots 1 N) of
             Some e \<Rightarrow> (Inl (Backend e), w\<lparr>calls := calls w @ [Import_pyplot, Subplots 1 N]\<rparr>)
           | None \<Rightarrow> bind_py (for_each (loop_body B) ?xs) ?k ?w1))"
      unfolding plot_channels_unfold [OF Cons] Axes_Array axes_ret.case ..
    have plan: "channels_calls B ?a = [Import_pyplot, Subplots 1 N] @
                  (if length rest < 2 \<and> ?xs \<noteq> [] then []
                   else concat (map round_calls ?xs) @ [Tight_layout, Show])"
      and own: "channels_error B ?a =
                  (if length rest < 2 \<and> ?xs \<noteq> [] then Some IndexError else None)"
      using Cons Axes_Array by (simp_all add: channels_calls_def channels_error_def Let_def)
    show ?thesis
      unfolding lhs plan own issue_head loop ..
  qed
qed

lemma first_raise_accepted: "first_raise B h plan = None \<longleftrightarrow> accepted B h plan"
  by (induction plan arbitrary: h) (auto split: option.splits)

subsection \<open>The calls on each subplot\<close>

lemma map_filter_append:
  "List.map_filter f (xs @ ys) = List.map_filter f xs @ List.map_filter f ys"
  by (simp add: List.map_filter_def)

lemma map_filter_concat:
  "List.map_filter f (concat xss) = concat (map (List.map_filter f) xss)"
  by (induction xss) (simp_all add: map_filter_append)

lemma zip3_indexed:
  "py_zip3 (map f [k..<N]) axl [k..<N] = map (\<lambda>(i, ax). (f i, ax, i)) (zip [k..<N] axl)"
proof (induction axl arbitrary: k)
  case Nil
  show ?case by (simp add: py_zip3_def)
next
  case (Cons ax axl)
  show ?case
  proof (cases "k < N")
    case True
    then have "[k..<N] = k # [Suc k..<N]"
      by (rule upt_conv_Cons)
    with Cons [of "Suc k"] show ?thesis
      by (simp add: py_zip3_def)
  next
    case False
    then show ?thesis by (simp add: py_zip3_def)
  qed
qed

lemma subplot_rounds:
  assumes "shape a = [N, R, C]"
  shows "concat (map round_calls (py_zip3 (map (subarray a) [0..<N]) axl [0..<N])) =
         concat (map (\<lambda>(i, ax).
           [Ax_imshow ax (subarray a i) ''gray'' ''equal'' [0, C, 0, R],
            Ax_grid ax ''red'' 1,
            Ax_set_title ax (''Channel '' @ py_str i),
            Ax_set_xticks ax [0..<C + 1],
            Ax_set_yticks ax [0..<R + 1]]) (zip [0..<N] axl))"
  using assms
  by (simp add: zip3_indexed comp_def split_def round_calls_def subarray_def Let_def)

lemma snd_zip_upt: "map snd (zip [0..<N] axl) = take N axl"
  by (simp add: map_snd_zip_take min_def)

section \<open>The claims\<close>

text \<open>
  Claim C1 says that \<^verbatim>\<open>plot_channels\<close> on a stack with exactly one channel raises no
  iteration error and draws the channel as for any other count. The code does not: when
  the library hands back the single Axes object itself for a 1 by 1 grid, as matplotlib
  does, a stack with one channel (whatever its other dimensions, its values and the
  calls issued before) makes \<^verbatim>\<open>zip\<close> raise TypeError right after \<^verbatim>\<open>subplots\<close>, before
  anything is drawn.
\<close>

theorem plot_channels_single_channel:
  assumes "shape (arrays w channels) = 1 # rest"
      and "subplots_ret B 1 = Single_Axes ax"
      and "raises B (calls w) Import_pyplot = None"
      and "raises B (calls w @ [Import_pyplot]) (Subplots 1 1) = None"
  shows "plot_channels B channels w =
           (Inl TypeError, w\<lparr>calls := calls w @ [Import_pyplot, Subplots 1 1]\<rparr>)"
  using assms by (simp add: plot_channels_unfold)

theorem plot_channels_single_channel_witness:
  "plot_channels pyplot 0 (world_with stack_1x2x2) =
     (Inl TypeError, \<lparr>arrays = (\<lambda>_. stack_1x2x2), calls = [Import_pyplot, Subplots 1 1]\<rparr>)"
  using plot_channels_single_channel [of "world_with stack_1x2x2" 0 "[2, 2]" pyplot 0]
  by (simp add: world_with_def stack_1x2x2_def pyplot_def)

text \<open>
  Claim C2: for an image of shape (R, C), a call of \<^verbatim>\<open>plot_image\<close> that returns has
  set the tick positions exactly once on each axis, to the integers 0, ..., C on the x axis
  and 0, ..., R on the y axis: C + 1 and R + 1 ticks. (It holds for every R and C, those
  with R \<ge> 1 and C \<ge> 1 among them.)
\<close>

theorem plot_image_ticks:
  assumes "shape (arrays w img) = [R, C]"
      and "plot_image B img w = (Inr u, w')"
  shows "List.map_filter xticks_of (issued w w') = [[0..<C + 1]] \<and>
         List.map_filter yticks_of (issued w w') = [[0..<R + 1]] \<and>
         set [0..<C + 1] = {0..C} \<and> length [0..<C + 1] = C + 1 \<and>
         set [0..<R + 1] = {0..R} \<and> length [0..<R + 1] = R + 1"
proof -
  from plot_image_returns [OF assms(2) assms(1)]
  have "issued w w' =
          [Import_pyplot, Imshow (arrays w img) ''gray'' ''equal'' [0, C, 0, R], Grid ''red'' 1,
           Xticks [0..<C + 1], Yticks [0..<R + 1], Tight_layout, Show]"
    by simp
  then show ?thesis
    by auto
qed

theorem plot_image_ticks_witness:
  "fst (plot_image pyplot 0 (world_with image_2x3)) = Inr () \<and>
   List.map_filter xticks_of
     (issued (world_with image_2x3) (snd (plot_image pyplot 0 (world_with image_2x3)))) =
     [[0, 1, 2, 3]] \<and>
   List.map_filter yticks_of
     (issued (world_with image_2x3) (snd (plot_image pyplot 0 (world_with image_2x3)))) =
     [[0, 1, 2]]"
proof -
  have sh: "shape (arrays (world_with image_2x3) 0) = [2, 3]"
    by (simp add: world_with_def image_2x3_def)
  from plot_image_ticks [OF sh image_2x3_run] show ?thesis
    unfolding image_2x3_run fst_conv snd_conv
    by (simp add: upt_rec)
qed

text \<open>
  Claim C3 says that for a stack of shape (N, R, C) with N \<ge> 1, \<^verbatim>\<open>plot_channels\<close>
  creates N subplots in one row and draws channel \<open>i\<close> into subplot \<open>i\<close> under the
  title \<^verbatim>\<open>Channel i\<close>. For N \<ge> 2 that is lemma \<open>plot_channels_pyplot_many\<close>. For
  N = 1 the code does not: on the stack of shape (1, 1, 1) the call raises TypeError
  after \<^verbatim>\<open>subplots(1, 1)\<close> and no subplot gets a title.
\<close>

theorem plot_channels_one_channel_untitled:
  "fst (plot_channels pyplot 0 (world_with stack_1x1x1)) = Inl TypeError \<and>
   calls (snd (plot_channels pyplot 0 (world_with stack_1x1x1))) = [Import_pyplot, Subplots 1 1] \<and>
   List.map_filter title_of (calls (snd (plot_channels pyplot 0 (world_with stack_1x1x1)))) = []"
proof -
  have "plot_channels pyplot 0 (world_with stack_1x1x1) =
     (Inl TypeError, \<lparr>arrays = (\<lambda>_. stack_1x1x1), calls = [Import_pyplot, Subplots 1 1]\<rparr>)"
    using plot_channels_unfold [of "world_with stack_1x1x1" 0 1 "[1, 1]" pyplot]
    by (simp add: world_with_def stack_1x1x1_def pyplot_def)
  then show ?thesis
    by simp
qed

text \<open>
  Claim C4: for an image of shape (R, C), a call of \<^verbatim>\<open>plot_image\<close> that returns has
  displayed the image once, with aspect \<^verbatim>\<open>equal\<close> and extent [0, C, 0, R]: from 0 to C
  horizontally and from 0 to R vertically.
\<close>

theorem plot_image_extent:
  assumes "shape (arrays w img) = [R, C]"
      and "plot_image B img w = (Inr u, w')"
  shows "List.map_filter extent_of (issued w w') = [(''equal'', [0, C, 0, R])]"
proof -
  from plot_image_returns [OF assms(2) assms(1)]
  have "issued w w' =
          [Import_pyplot, Imshow (arrays w img) ''gray'' ''equal'' [0, C, 0, R], Grid ''red'' 1,
           Xticks [0..<C + 1], Yticks [0..<R + 1], Tight_layout, Show]"
    by simp
  then show ?thesis
    by simp
qed

theorem plot_image_extent_witness:
  "fst (plot_image pyplot 0 (world_with image_2x3_dark)) = Inr () \<and>
   List.map_filter extent_of
     (issued (world_with image_2x3_dark) (snd (plot_image pyplot 0 (world_with image_2x3_dark)))) =
     [(''equal'', [0, 3, 0, 2])]"
proof -
  have sh: "shape (arrays (world_with image_2x3_dark) 0) = [2, 3]"
    by (simp add: world_with_def image_2x3_dark_def)
  from plot_image_extent [OF sh image_2x3_dark_run] show ?thesis
    unfolding image_2x3_dark_run fst_conv snd_conv
    by simp
qed

text \<open>
  Claim C5: a call of either function leaves every array of the caller as it was, whether
  the call returns or raises. (The functions only read their argument; the library is
  given the contents of the array.)
\<close>

theorem renderers_leave_arrays_unchanged:
  "arrays (snd (plot_image B img w)) = arrays w \<and>
   arrays (snd (plot_channels B channels w)) = arrays w"
proof -
  from orderlyD [OF orderly_plot_image, of B img w] obtain cs where
    "snd (plot_image B img w) = w\<lparr>calls := calls w @ cs\<rparr>" by blast
  moreover
  from orderlyD [OF orderly_plot_channels, of B channels w] obtain ds where
    "snd (plot_channels B channels w) = w\<lparr>calls := calls w @ ds\<rparr>" by blast
  ultimately show ?thesis by simp
qed

text \<open>
  Claim C6: with a library that raises nothing, \<^verbatim>\<open>plot_image\<close> on a 1 by 1 array
  returns, and has set the ticks of both axes to [0, 1].
\<close>

theorem plot_image_1x1:
  assumes "shape (arrays w img) = [1, 1]"
      and "\<forall>h c. raises B h c = None"
  shows "fst (plot_image B img w) = Inr () \<and>
         List.map_filter xticks_of (issued w (snd (plot_image B img w))) = [[0, 1]] \<and>
         List.map_filter yticks_of (issued w (snd (plot_image B img w))) = [[0, 1]]"
  using plot_image_accepted [OF assms(1) accepted_quiet [OF assms(2)]]
  by simp

theorem plot_image_1x1_witness:
  "fst (plot_image (quiet_backend :: (int, mpl_error) backend) 0 (world_with image_1x1)) = Inr () \<and>
   List.map_filter xticks_of
     (calls (snd (plot_image (quiet_backend :: (int, mpl_error) backend) 0 (world_with image_1x1)))) =
     [[0, 1]] \<and>
   List.map_filter yticks_of
     (calls (snd (plot_image (quiet_backend :: (int, mpl_error) backend) 0 (world_with image_1x1)))) =
     [[0, 1]]"
  using plot_image_1x1 [of "world_with image_1x1" 0 "quiet_backend :: (int, mpl_error) backend"]
  by (simp add: world_with_def image_1x1_def issued_def quiet_backend_def)

text \<open>
  Claim C7: an empty stack (N = 0) has one outcome, whatever the other dimensions, the
  values and the calls issued before. The code has no check of its own: its first call
  to the library after the import is \<^verbatim>\<open>subplots(1, 0)\<close>, and when the library rejects a
  grid without columns, as matplotlib does with a ValueError, the call ends there with
  that exception, nothing drawn.
\<close>

theorem plot_channels_empty_stack:
  assumes "shape (arrays w channels) = 0 # rest"
      and "raises B (calls w) Import_pyplot = None"
      and "raises B (calls w @ [Import_pyplot]) (Subplots 1 0) = Some e"
  shows "plot_channels B channels w =
           (Inl (Backend e), w\<lparr>calls := calls w @ [Import_pyplot, Subplots 1 0]\<rparr>)"
  using assms by (simp add: plot_channels_unfold)

theorem plot_channels_empty_stack_witness:
  "plot_channels pyplot 0 (world_with stack_0x1x2) =
     (Inl (Backend (ValueError ''Number of columns must be a positive integer, not 0'')),
      \<lparr>arrays = (\<lambda>_. stack_0x1x2), calls = [Import_pyplot, Subplots 1 0]\<rparr>)"
  using plot_channels_empty_stack [of "world_with stack_0x1x2" 0 "[1, 2]" pyplot
          "ValueError ''Number of columns must be a positive integer, not 0''"]
  by (simp add: world_with_def stack_0x1x2_def pyplot_def)

text \<open>
  Claim C8: neither function checks its input, and an exception of the library reaches
  the caller as it is and ends the call. For a call of either function, with \<open>plan\<close>
  the calls the function issues on this array when nothing raises and \<open>own\<close> the
  exception of Python's own indexing or iteration that this array leads to, if any:
  the call is exactly \<open>outcome B plan own\<close>; an exception that is not the library's
  is \<open>own\<close>, raised after the library returned from all of \<open>plan\<close>; without \<open>own\<close>
  the call returns whenever the library returns from all of \<open>plan\<close>; if the library
  raised \<open>e\<close> at one of the calls issued, the result is that very exception and the call
  was the last one issued; and a result that is an exception \<open>e\<close> of the library was
  raised at the last call issued.
\<close>

theorem backend_errors_propagate:
  assumes "m = plot_image B p \<and> plan = image_calls (arrays w p) \<and> own = image_error (arrays w p) \<or>
           m = plot_channels B p \<and> plan = channels_calls B (arrays w p) \<and>
             own = channels_error B (arrays w p)"
      and "m w = (res, w')"
  shows "(res, w') = outcome B plan own w \<and>
         (\<forall>x. res = Inl x \<and> (\<forall>e. x \<noteq> Backend e) \<longrightarrow> own = Some x \<and> accepted B (calls w) plan) \<and>
         (own = None \<and> accepted B (calls w) plan \<longrightarrow> res = Inr ()) \<and>
         (\<exists>cs. w' = w\<lparr>calls := calls w @ cs\<rparr> \<and>
           (\<forall>i e. i < length cs \<and> raises B (calls w @ take i cs) (cs ! i) = Some e \<longrightarrow>
                    res = Inl (Backend e) \<and> Suc i = length cs) \<and>
           (\<forall>e. res = Inl (Backend e) \<longrightarrow>
                    cs \<noteq> [] \<and> raises B (calls w @ butlast cs) (last cs) = Some e))"
proof -
  from assms(1) have "m w = outcome B plan own w"
    by (auto simp: plot_image_issue plot_channels_issue issue_outcome)
  with assms(2) have exact: "(res, w') = outcome B plan own w"
    by simp
  then have own: "own = Some x \<and> accepted B (calls w) plan"
    if "res = Inl x" "\<forall>e. x \<noteq> Backend e" for x
    using that
    by (auto simp: outcome_def first_raise_accepted [symmetric] split: option.splits)
  from exact have returns: "res = Inr ()" if "own = None" "accepted B (calls w) plan"
    using that by (simp add: outcome_def first_raise_accepted [symmetric])
  from assms(1) have "orderly B m"
    by (auto simp: orderly_plot_image orderly_plot_channels)
  from orderlyD [OF this, of w] assms(2) obtain cs where
    w': "w' = w\<lparr>calls := calls w @ cs\<rparr>" and ok: "trace_ok B (calls w) cs res"
    by auto
  have "res = Inl (Backend e) \<and> Suc i = length cs"
    if "i < length cs" "raises B (calls w @ take i cs) (cs ! i) = Some e" for i e
    using trace_ok_raise [OF ok that] .
  moreover have "cs \<noteq> [] \<and> raises B (calls w @ butlast cs) (last cs) = Some e"
    if "res = Inl (Backend e)" for e
    using ok that by (simp add: trace_ok_def)
  ultimately have "\<exists>cs. w' = w\<lparr>calls := calls w @ cs\<rparr> \<and>
           (\<forall>i e. i < length cs \<and> raises B (calls w @ take i cs) (cs ! i) = Some e \<longrightarrow>
                    res = Inl (Backend e) \<and> Suc i = length cs) \<and>
           (\<forall>e. res = Inl (Backend e) \<longrightarrow>
                    cs \<noteq> [] \<and> raises B (calls w @ butlast cs) (last cs) = Some e)"
    using w' by blast
  with exact own returns show ?thesis
    by blast
qed

theorem backend_errors_propagate_witness:
  "plot_image grid_fails 0 (world_with image_2x3) =
     (Inl (Backend (ValueError ''grid'')),
      \<lparr>arrays = (\<lambda>_. image_2x3),
       calls = [Import_pyplot, Imshow image_2x3 ''gray'' ''equal'' [0, 3, 0, 2], Grid ''red'' 1]\<rparr>) \<and>
   plot_image pyplot 0 (world_with vector_3) =
     (Inl IndexError, \<lparr>arrays = (\<lambda>_. vector_3), calls = [Import_pyplot]\<rparr>) \<and>
   plot_channels pyplot 0 (world_with stack_0x1x2) =
     (Inl (Backend (ValueError ''Number of columns must be a positive integer, not 0'')),
      \<lparr>arrays = (\<lambda>_. stack_0x1x2), calls = [Import_pyplot, Subplots 1 0]\<rparr>)"
proof -
  have "plot_image grid_fails 0 (world_with image_2x3) =
          outcome grid_fails (image_calls image_2x3) (image_error image_2x3) (world_with image_2x3)"
    using backend_errors_propagate
            [of "plot_image grid_fails 0" grid_fails 0 "image_calls image_2x3" "world_with image_2x3"
                "image_error image_2x3"
                "fst (plot_image grid_fails 0 (world_with image_2x3))"
                "snd (plot_image grid_fails 0 (world_with image_2x3))"]
    by (simp add: world_with_def)
  moreover have "plot_image pyplot 0 (world_with vector_3) =
          outcome pyplot (image_calls vector_3) (image_error vector_3) (world_with vector_3)"
    using backend_errors_propagate
            [of "plot_image pyplot 0" pyplot 0 "image_calls vector_3" "world_with vector_3"
                "image_error vector_3"
                "fst (plot_image pyplot 0 (world_with vector_3))"
                "snd (plot_image pyplot 0 (world_with vector_3))"]
    by (simp add: world_with_def)
  moreover have "plot_channels pyplot 0 (world_with stack_0x1x2) =
          outcome pyplot (channels_calls pyplot stack_0x1x2) (channels_error pyplot stack_0x1x2)
            (world_with stack_0x1x2)"
    using backend_errors_propagate
            [of "plot_channels pyplot 0" pyplot 0 "channels_calls pyplot stack_0x1x2"
                "world_with stack_0x1x2" "channels_error pyplot stack_0x1x2"
                "fst (plot_channels pyplot 0 (world_with stack_0x1x2))"
                "snd (plot_channels pyplot 0 (world_with stack_0x1x2))"]
    by (simp add: world_with_def)
  ultimately show ?thesis
    by (simp add: outcome_def image_calls_def image_error_def channels_calls_def
          channels_error_def world_with_def image_2x3_def vector_3_def stack_0x1x2_def
          grid_fails_def pyplot_def)
qed

text \<open>
  Claim C9: what either function configures depends on the shape of its array only. Two
  calls of the same function on arrays of the same shape, both returning, have issued
  the same calls with the same arguments but for the pixel values handed to
  \<^verbatim>\<open>imshow\<close>: the same ticks, extents, number of subplots and titles.
\<close>

theorem configuration_depends_on_shape_only:
  assumes "shape (arrays w1 p1) = shape (arrays w2 p2)"
      and "m = plot_image \<or> m = plot_channels"
      and "m B p1 w1 = (Inr u1, w1')"
      and "m B p2 w2 = (Inr u2, w2')"
  shows "map forget_pixels (issued w1 w1') = map forget_pixels (issued w2 w2')"
  using assms(2)
proof
  assume m: "m = plot_image"
  from assms(3) m have "\<not> length (shape (arrays w1 p1)) < 2"
    by (auto dest: plot_image_needs_2d)
  then obtain R C rest where sh: "shape (arrays w1 p1) = R # C # rest"
    using two_dims by blast
  with assms(1) have sh2: "shape (arrays w2 p2) = R # C # rest" by simp
  from assms(3,4) m have
    "w1' = w1\<lparr>calls := calls w1 @
           [Import_pyplot, Imshow (arrays w1 p1) ''gray'' ''equal'' [0, C, 0, R], Grid ''red'' 1,
            Xticks [0..<C + 1], Yticks [0..<R + 1], Tight_layout, Show]\<rparr>"
    "w2' = w2\<lparr>calls := calls w2 @
           [Import_pyplot, Imshow (arrays w2 p2) ''gray'' ''equal'' [0, C, 0, R], Grid ''red'' 1,
            Xticks [0..<C + 1], Yticks [0..<R + 1], Tight_layout, Show]\<rparr>"
    by (auto dest: plot_image_returns [OF _ sh] plot_image_returns [OF _ sh2])
  with assms(1) show ?thesis by simp
next
  assume m: "m = plot_channels"
  from assms(3) m have "shape (arrays w1 p1) \<noteq> []"
    by (auto simp: plot_channels_def bind_call shape_at_def raise_py_def split: option.splits)
  then obtain N rest where sh: "shape (arrays w1 p1) = N # rest"
    by (cases "shape (arrays w1 p1)") auto
  with assms(1) have sh2: "shape (arrays w2 p2) = N # rest" by simp
  from plot_channels_returns [OF _ sh] plot_channels_returns [OF _ sh2] assms(3,4) m
  obtain axl where
    "w1' = w1\<lparr>calls := calls w1 @ [Import_pyplot, Subplots 1 N] @
             concat (map round_calls
               (py_zip3 (map (subarray (arrays w1 p1)) [0..<N]) axl [0..<N])) @
             [Tight_layout, Show]\<rparr>"
    "w2' = w2\<lparr>calls := calls w2 @ [Import_pyplot, Subplots 1 N] @
             concat (map round_calls
               (py_zip3 (map (subarray (arrays w2 p2)) [0..<N]) axl [0..<N])) @
             [Tight_layout, Show]\<rparr>"
    by fastforce
  with forget_rounds [OF assms(1)] show ?thesis by simp
qed

theorem configuration_depends_on_shape_only_witness:
  "image_2x3 \<noteq> image_2x3_dark \<and>
   shape image_2x3 = shape image_2x3_dark \<and>
   map forget_pixels
     (issued (world_with image_2x3) (snd (plot_image pyplot 0 (world_with image_2x3)))) =
   map forget_pixels
     (issued (world_with image_2x3_dark) (snd (plot_image pyplot 0 (world_with image_2x3_dark))))"
proof -
  have sh: "shape (arrays (world_with image_2x3) 0) = shape (arrays (world_with image_2x3_dark) 0)"
    by (simp add: world_with_def image_2x3_def image_2x3_dark_def)
  from configuration_depends_on_shape_only
         [OF sh disjI1 [OF refl] image_2x3_run image_2x3_dark_run]
  show ?thesis
    unfolding image_2x3_run image_2x3_dark_run snd_conv
    by (simp add: image_2x3_def image_2x3_dark_def)
qed

text \<open>
  Claim C10: in a call of \<^verbatim>\<open>plot_channels\<close> on a stack of shape (N, R, C) that
  returns, the library returned an array of Axes, and each subplot drawn (the first N of
  them, in order) received exactly one \<^verbatim>\<open>imshow\<close> with aspect \<^verbatim>\<open>equal\<close> and extent
  [0, C, 0, R], one \<^verbatim>\<open>set_xticks\<close> with 0, ..., C and one \<^verbatim>\<open>set_yticks\<close> with
  0, ..., R: the same for every subplot, each computed from the shape of its channel, and
  every channel of the stack has the shape (R, C). The calls issued are listed in full.
\<close>

theorem plot_channels_uniform_subplots:
  assumes "shape (arrays w channels) = [N, R, C]"
      and "plot_channels B channels w = (Inr u, w')"
  shows "\<exists>axl. subplots_ret B N = Axes_Array axl \<and>
           issued w w' = [Import_pyplot, Subplots 1 N] @
             concat (map (\<lambda>(i, ax).
               [Ax_imshow ax (subarray (arrays w channels) i) ''gray'' ''equal'' [0, C, 0, R],
                Ax_grid ax ''red'' 1,
                Ax_set_title ax (''Channel '' @ py_str i),
                Ax_set_xticks ax [0..<C + 1],
                Ax_set_yticks ax [0..<R + 1]]) (zip [0..<N] axl)) @
             [Tight_layout, Show] \<and>
           List.map_filter subplot_extent_of (issued w w') =
             map (\<lambda>ax. (ax, ''equal'', [0, C, 0, R])) (take N axl) \<and>
           List.map_filter subplot_xticks_of (issued w w') =
             map (\<lambda>ax. (ax, [0..<C + 1])) (take N axl) \<and>
           List.map_filter subplot_yticks_of (issued w w') =
             map (\<lambda>ax. (ax, [0..<R + 1])) (take N axl) \<and>
           set (List.map_filter extent_of (issued w w')) \<subseteq> {(''equal'', [0, C, 0, R])} \<and>
           set (List.map_filter xticks_of (issued w w')) \<subseteq> {[0..<C + 1]} \<and>
           set (List.map_filter yticks_of (issued w w')) \<subseteq> {[0..<R + 1]}"
proof -
  let ?a = "arrays w channels"
  let ?round = "\<lambda>(i, ax).
       [Ax_imshow ax (subarray ?a i) ''gray'' ''equal'' [0, C, 0, R],
        Ax_grid ax ''red'' 1,
        Ax_set_title ax (''Channel '' @ py_str i),
        Ax_set_xticks ax [0..<C + 1],
        Ax_set_yticks ax [0..<R + 1]]"
  from plot_channels_returns [OF assms(2) assms(1)] obtain axl where
    ret: "subplots_ret B N = Axes_Array axl" and
    "issued w w' = [Import_pyplot, Subplots 1 N] @
           concat (map round_calls (py_zip3 (map (subarray ?a) [0..<N]) axl [0..<N])) @
           [Tight_layout, Show]"
    by auto
  then have run: "issued w w' = [Import_pyplot, Subplots 1 N] @
           concat (map ?round (zip [0..<N] axl)) @ [Tight_layout, Show]"
    by (simp only: subplot_rounds [OF assms(1)])
  have "List.map_filter subplot_extent_of (issued w w') =
          concat (map (\<lambda>x. [(snd x, ''equal'', [0, C, 0, R])]) (zip [0..<N] axl))"
    unfolding run by (simp add: map_filter_append map_filter_concat comp_def split_def)
  then have ext: "List.map_filter subplot_extent_of (issued w w') =
          map (\<lambda>ax. (ax, ''equal'', [0, C, 0, R])) (take N axl)"
    by (simp add: snd_zip_upt [symmetric] comp_def del: map_snd_zip)
  have "List.map_filter subplot_xticks_of (issued w w') =
          concat (map (\<lambda>x. [(snd x, [0..<C + 1])]) (zip [0..<N] axl))"
    unfolding run by (simp add: map_filter_append map_filter_concat comp_def split_def)
  then have xt: "List.map_filter subplot_xticks_of (issued w w') =
          map (\<lambda>ax. (ax, [0..<C + 1])) (take N axl)"
    by (simp add: snd_zip_upt [symmetric] comp_def del: map_snd_zip)
  have "List.map_filter subplot_yticks_of (issued w w') =
          concat (map (\<lambda>x. [(snd x, [0..<R + 1])]) (zip [0..<N] axl))"
    unfolding run by (simp add: map_filter_append map_filter_concat comp_def split_def)
  then have yt: "List.map_filter subplot_yticks_of (issued w w') =
          map (\<lambda>ax. (ax, [0..<R + 1])) (take N axl)"
    by (simp add: snd_zip_upt [symmetric] comp_def del: map_snd_zip)
  have "extent_of c \<in> {None, Some (''equal'', [0, C, 0, R])} \<and>
        xticks_of c \<in> {None, Some [0..<C + 1]} \<and>
        yticks_of c \<in> {None, Some [0..<R + 1]}" if "c \<in> set (issued w w')" for c
    using that unfolding run by auto
  then have "set (List.map_filter extent_of (issued w w')) \<subseteq> {(''equal'', [0, C, 0, R])} \<and>
         set (List.map_filter xticks_of (issued w w')) \<subseteq> {[0..<C + 1]} \<and>
         set (List.map_filter yticks_of (issued w w')) \<subseteq> {[0..<R + 1]}"
    by (fastforce simp: in_set_map_filter)
  with ret run ext xt yt show ?thesis
    by blast
qed

theorem plot_channels_uniform_subplots_witness:
  "fst (plot_channels pyplot 0 (world_with stack_2x1x2)) = Inr () \<and>
   List.map_filter subplot_extent_of
     (issued (world_with stack_2x1x2) (snd (plot_channels pyplot 0 (world_with stack_2x1x2)))) =
     [(0, ''equal'', [0, 2, 0, 1]), (1, ''equal'', [0, 2, 0, 1])] \<and>
   List.map_filter subplot_xticks_of
     (issued (world_with stack_2x1x2) (snd (plot_channels pyplot 0 (world_with stack_2x1x2)))) =
     [(0, [0, 1, 2]), (1, [0, 1, 2])] \<and>
   List.map_filter subplot_yticks_of
     (issued (world_with stack_2x1x2) (snd (plot_channels pyplot 0 (world_with stack_2x1x2)))) =
     [(0, [0, 1]), (1, [0, 1])]"
proof -
  have sh: "shape (arrays (world_with stack_2x1x2) 0) = [2, 1, 2]"
    by (simp add: world_with_def stack_2x1x2_def)
  from plot_channels_uniform_subplots [OF sh stack_2x1x2_run] show ?thesis
    unfolding stack_2x1x2_run fst_conv snd_conv
    by (simp add: issued_def world_with_def)
qed

end
